theory Spec2Isabelle
  imports Complex_Main
begin

section \<open>The ticket-status donut chart of the dashboard\<close>

text \<open>
  The model follows \<^verbatim>\<open>src/pages/Dashboard/DashboardHome.tsx\<close>. A JavaScript number is
  modelled as a \<^typ>\<open>real\<close>: the finite values, with exact arithmetic. The prop
  \<^verbatim>\<open>data: Record<string, number>\<close> is the list of the object's own properties, key and
  value, in enumeration order.
\<close>

type_synonym counts = "(string \<times> real) list"

text \<open>\<^verbatim>\<open>Object.values(data)\<close>\<close>

definition Object_values :: "counts \<Rightarrow> real list" where
  "Object_values data = map snd data"

text \<open>\<^verbatim>\<open>data[status]\<close>: the number stored under the key, \<open>None\<close> for \<^verbatim>\<open>undefined\<close>.\<close>

definition data_at :: "counts \<Rightarrow> string \<Rightarrow> real option" where
  "data_at data status = map_of data status"

text \<open>\<^verbatim>\<open>const total = Object.values(data).reduce((sum, count) => sum + count, 0)\<close>\<close>

definition total_sum :: "counts \<Rightarrow> real" where
  "total_sum data = foldl (\<lambda>sum count. sum + count) 0 (Object_values data)"

definition colors :: "(string \<times> string) list" where
  "colors =
    [(''OPEN'', ''#3b82f6''),
     (''PENDING'', ''#ef4444''),
     (''INPROGRESS'', ''#f59e0b''),
     (''CLOSED'', ''#6b7280''),
     (''COMPLETED'', ''#10b981'')]"

definition statusOrder :: "string list" where
  "statusOrder = [''OPEN'', ''PENDING'', ''INPROGRESS'', ''CLOSED'', ''COMPLETED'']"

record segment =
  status :: string
  count :: real
  percentage :: real
  color :: "string option"

text \<open>
  \<^verbatim>\<open>statusOrder.filter(status => data[status] > 0).map(status => ({...}))\<close>.
  The comparison \<^verbatim>\<open>undefined > 0\<close> is false, so a status reaches the callback of
  \<^verbatim>\<open>map\<close> only when \<^verbatim>\<open>data[status]\<close> is a number \<open>c\<close> with \<open>c > 0\<close>; the two passes are
  written as one, with that number at hand.
\<close>

definition segments :: "counts \<Rightarrow> real \<Rightarrow> segment list" where
  "segments data tot =
    List.map_filter
      (\<lambda>status.
        case data_at data status of
          None \<Rightarrow> None
        | Some c \<Rightarrow>
            if c > 0
            then Some \<lparr>status = status, count = c, percentage = (c / tot) * 100,
                       color = map_of colors status\<rparr>
            else None)
      statusOrder"

definition size_px :: real where
  "size_px = 280"

definition strokeWidth_px :: real where
  "strokeWidth_px = 35"

definition radius :: real where
  "radius = (size_px - strokeWidth_px) / 2"

definition circumference :: real where
  "circumference = 2 * pi * radius"

text \<open>
  The text of the tooltip, \<^verbatim>\<open>`${segment.status}: ${segment.count} Tickets`\<close>, kept as the
  two values the template prints.
\<close>

datatype tooltip_text = Tickets_text string real

record svg_circle =
  cx :: real
  cy :: real
  r :: real
  fill :: string
  stroke :: "string option"
  strokeWidth :: real

text \<open>
  A segment's circle. \<open>strokeDasharray\<close> is the pair printed as
  \<^verbatim>\<open>`${dashArray} ${circumference}`\<close>; \<open>onClick\<close> is the argument the click handler passes
  to \<^verbatim>\<open>handleCardClick\<close>; \<open>onMouseMove\<close> is the tooltip text a pointer move sets, \<open>None\<close>
  when the circle has no such handler.
\<close>

record segment_circle = svg_circle +
  key :: string
  strokeDasharray :: "real \<times> real"
  strokeDashoffset :: real
  onClick :: string
  onMouseMove :: "tooltip_text option"

text \<open>
  The body of \<^verbatim>\<open>segments.map((segment) => {...})\<close>; the mutable
  \<^verbatim>\<open>accumulatedPercentage\<close> is the first argument.
\<close>

fun renderSegments :: "real \<Rightarrow> segment list \<Rightarrow> segment_circle list" where
  "renderSegments accumulatedPercentage [] = []"
| "renderSegments accumulatedPercentage (seg # rest) =
    (let minVisiblePercentage = 0.5;
         displayPercentage = max (percentage seg) minVisiblePercentage;
         dashArray = (displayPercentage / 100) * circumference;
         dashOffset = - accumulatedPercentage * circumference / 100
     in \<lparr>cx = size_px / 2, cy = size_px / 2, r = radius, fill = ''none'',
          stroke = color seg, strokeWidth = strokeWidth_px,
          key = status seg,
          strokeDasharray = (dashArray, circumference),
          strokeDashoffset = dashOffset,
          onClick = status seg,
          onMouseMove = Some (Tickets_text (status seg) (count seg))\<rparr>
        # renderSegments (accumulatedPercentage + percentage seg) rest)"

text \<open>
  What the component returns: the placeholder (icon, message, hint) when the total is
  zero, else the background circle, the segment circles, the number in the centre and its
  caption. The tooltip box is not part of the view: its state starts as \<^verbatim>\<open>null\<close> and only
  the pointer handlers of the circles change it.
\<close>

datatype view =
  EmptyState string string string
| Donut svg_circle "segment_circle list" real string

definition DonutChart :: "counts \<Rightarrow> view" where
  "DonutChart data =
    (let tot = total_sum data in
     if tot = 0
     then EmptyState ''Activity'' ''No tickets assigned yet''
            ''Tickets will appear here once assigned''
     else Donut \<lparr>cx = size_px / 2, cy = size_px / 2, r = radius, fill = ''none'',
                  stroke = Some ''#e5e7eb'', strokeWidth = strokeWidth_px\<rparr>
            (renderSegments 0 (segments data tot))
            tot ''Total Tickets'')"

text \<open>The segment circles a view draws.\<close>

fun segmentCircles :: "view \<Rightarrow> segment_circle list" where
  "segmentCircles (EmptyState icon message hint) = []"
| "segmentCircles (Donut background circles centre caption) = circles"

subsection \<open>Clicks\<close>

text \<open>
  What a click does to the world outside the component: a call of the router's
  \<^verbatim>\<open>navigate\<close> with a URL, and a call of the prop \<^verbatim>\<open>onNavigateToTickets\<close> with a status.
\<close>

datatype effect = Navigate string | OnNavigateToTickets string

text \<open>
  \<^verbatim>\<open>handleCardClick\<close>. The prop \<^verbatim>\<open>onNavigateToTickets?: (status: string) => void\<close> is
  optional; the first argument says whether the host passed it.
\<close>

definition handleCardClick :: "bool \<Rightarrow> string \<Rightarrow> effect list" where
  "handleCardClick onNavigateToTickets_given status_arg =
    Navigate (''/home/ticket/show?status='' @ status_arg)
    # (if onNavigateToTickets_given then [OnNavigateToTickets status_arg] else [])"

text \<open>\<^verbatim>\<open>onClick={() => handleCardClick(segment.status)}\<close> on a segment's circle.\<close>

definition clickSegment :: "bool \<Rightarrow> segment_circle \<Rightarrow> effect list" where
  "clickSegment onNavigateToTickets_given circ =
    handleCardClick onNavigateToTickets_given (onClick circ)"

subsection \<open>The second dashboard file\<close>

text \<open>
  The repository holds a second dashboard, \<^verbatim>\<open>src/unnamed/part_001\<close>, with a
  \<^verbatim>\<open>DonutChart\<close> of its own. It is transcribed here separately, constant by constant.
  Its circles have no pointer handlers.
\<close>

definition colors_part001 :: "(string \<times> string) list" where
  "colors_part001 =
    [(''OPEN'', ''#3b82f6''),
     (''PENDING'', ''#ef4444''),
     (''INPROGRESS'', ''#f59e0b''),
     (''CLOSED'', ''#6b7280''),
     (''COMPLETED'', ''#10b981'')]"

definition statusOrder_part001 :: "string list" where
  "statusOrder_part001 = [''OPEN'', ''PENDING'', ''INPROGRESS'', ''CLOSED'', ''COMPLETED'']"

definition segments_part001 :: "counts \<Rightarrow> real \<Rightarrow> segment list" where
  "segments_part001 data tot =
    List.map_filter
      (\<lambda>status.
        case data_at data status of
          None \<Rightarrow> None
        | Some c \<Rightarrow>
            if c > 0
            then Some \<lparr>status = status, count = c, percentage = (c / tot) * 100,
                       color = map_of colors_part001 status\<rparr>
            else None)
      statusOrder_part001"

definition size_part001 :: real where
  "size_part001 = 280"

definition strokeWidth_part001 :: real where
  "strokeWidth_part001 = 35"

definition radius_part001 :: real where
  "radius_part001 = (size_part001 - strokeWidth_part001) / 2"

definition circumference_part001 :: real where
  "circumference_part001 = 2 * pi * radius_part001"

fun renderSegments_part001 :: "real \<Rightarrow> segment list \<Rightarrow> segment_circle list" where
  "renderSegments_part001 accumulatedPercentage [] = []"
| "renderSegments_part001 accumulatedPercentage (seg # rest) =
    (let minVisiblePercentage = 0.5;
         displayPercentage = max (percentage seg) minVisiblePercentage;
         dashArray = (displayPercentage / 100) * circumference_part001;
         dashOffset = - accumulatedPercentage * circumference_part001 / 100
     in \<lparr>cx = size_part001 / 2, cy = size_part001 / 2, r = radius_part001, fill = ''none'',
          stroke = color seg, strokeWidth = strokeWidth_part001,
          key = status seg,
          strokeDasharray = (dashArray, circumference_part001),
          strokeDashoffset = dashOffset,
          onClick = status seg,
          onMouseMove = None\<rparr>
        # renderSegments_part001 (accumulatedPercentage + percentage seg) rest)"

definition DonutChart_part001 :: "counts \<Rightarrow> view" where
  "DonutChart_part001 data =
    (let tot = foldl (\<lambda>sum count. sum + count) 0 (Object_values data) in
     if tot = 0
     then EmptyState ''Activity'' ''No tickets assigned yet''
            ''Tickets will appear here once assigned''
     else Donut \<lparr>cx = size_part001 / 2, cy = size_part001 / 2, r = radius_part001,
                  fill = ''none'', stroke = Some ''#e5e7eb'',
                  strokeWidth = strokeWidth_part001\<rparr>
            (renderSegments_part001 0 (segments_part001 data tot))
            tot ''Total Tickets'')"

text \<open>A view with the pointer handlers of its segment circles taken away.\<close>

fun withoutHover :: "view \<Rightarrow> view" where
  "withoutHover (EmptyState icon message hint) = EmptyState icon message hint"
| "withoutHover (Donut background circles centre caption) =
    Donut background (map (\<lambda>circ. circ\<lparr>onMouseMove := None\<rparr>) circles) centre caption"

section \<open>The company list page\<close>

text \<open>
  The model follows \<^verbatim>\<open>src/unnamed/part_000\<close> (\<^verbatim>\<open>ShowCompanyPage\<close>). The state of the page
  is the component's \<^verbatim>\<open>useState\<close> cells; \<open>toasts\<close> adds the calls of \<^verbatim>\<open>toast.error\<close> and
  \<^verbatim>\<open>toast.success\<close> made so far, oldest first.
\<close>

record company =
  company_id :: int
  name :: string
  email :: string
  phone :: string
  address :: string
  logo :: string

record user_data =
  user_id :: "int option"
  departmentId :: int
  departmentName :: "string option"
  user_name :: string
  user_email :: "string option"

datatype toast = Toast_error string | Toast_success string

record page_state =
  companies :: "company list"
  loading :: bool
  search :: string
  selectedCompany :: "company option"
  editModal :: bool
  deleteModal :: bool
  userData :: "user_data option"
  toasts :: "toast list"

text \<open>\<^verbatim>\<open>const isSuperAdmin = userData?.departmentId === 1\<close>\<close>

definition isSuperAdmin :: "page_state \<Rightarrow> bool" where
  "isSuperAdmin st = (case userData st of None \<Rightarrow> False | Some u \<Rightarrow> departmentId u = 1)"

text \<open>
  The outcome of an HTTP call: a response with \<^verbatim>\<open>res.data.code\<close>, \<^verbatim>\<open>res.data.data\<close> and
  \<^verbatim>\<open>res.data.message\<close>, or a rejection with \<^verbatim>\<open>err?.response?.data?.message\<close>.
\<close>

datatype 'a http_result =
  Resolved int "'a option" "string option"
| Rejected "string option"

text \<open>\<^verbatim>\<open>message || fallback\<close> on strings: the fallback for \<^verbatim>\<open>undefined\<close> and for \<^verbatim>\<open>""\<close>.\<close>

definition or_default :: "string option \<Rightarrow> string \<Rightarrow> string" where
  "or_default message fallback =
    (case message of None \<Rightarrow> fallback | Some m \<Rightarrow> if m = [] then fallback else m)"

definition toast_error :: "string \<Rightarrow> page_state \<Rightarrow> page_state" where
  "toast_error m st = st\<lparr>toasts := toasts st @ [Toast_error m]\<rparr>"

definition toast_success :: "string \<Rightarrow> page_state \<Rightarrow> page_state" where
  "toast_success m st = st\<lparr>toasts := toasts st @ [Toast_success m]\<rparr>"

text \<open>\<^verbatim>\<open>fetchCompanies\<close>, from the call to the end of its \<^verbatim>\<open>finally\<close> block.\<close>

definition fetchCompanies :: "page_state \<Rightarrow> company list http_result \<Rightarrow> page_state" where
  "fetchCompanies st res =
    (let st1 = st\<lparr>loading := True\<rparr>;
         st2 = (case res of
                  Resolved code payload message \<Rightarrow>
                    if code = 1
                    then st1\<lparr>companies := (case payload of None \<Rightarrow> [] | Some cs \<Rightarrow> cs)\<rparr>
                    else toast_error (or_default message ''Failed to fetch companies'') st1
                | Rejected message \<Rightarrow>
                    toast_error (or_default message ''Failed to fetch companies'') st1)
     in st2\<lparr>loading := False\<rparr>)"

text \<open>
  \<^verbatim>\<open>handleUpdate\<close>, given the outcome of the PUT and of the list fetch it starts on
  success.
\<close>

definition handleUpdate ::
  "page_state \<Rightarrow> unit http_result \<Rightarrow> company list http_result \<Rightarrow> page_state" where
  "handleUpdate st put_res get_res =
    (case selectedCompany st of
       None \<Rightarrow> st
     | Some sel \<Rightarrow>
         if \<not> isSuperAdmin st
         then toast_error
                ''You don't have permission to edit companies. Only SuperAdmin can edit.'' st
         else (case put_res of
                 Resolved code payload message \<Rightarrow>
                   if code = 1
                   then fetchCompanies
                          ((toast_success ''Company updated successfully!'' st)
                             \<lparr>editModal := False\<rparr>)
                          get_res
                   else toast_error (or_default message ''Failed to update company'') st
               | Rejected message \<Rightarrow>
                   toast_error (or_default message ''Failed to update company'') st))"

text \<open>\<^verbatim>\<open>handleDelete\<close>, given the outcome of the DELETE.\<close>

definition handleDelete :: "page_state \<Rightarrow> unit http_result \<Rightarrow> page_state" where
  "handleDelete st del_res =
    (case selectedCompany st of
       None \<Rightarrow> st
     | Some sel \<Rightarrow>
         if \<not> isSuperAdmin st
         then toast_error
                ''You don't have permission to delete companies. Only SuperAdmin can delete.'' st
         else (let st1 =
                     (case del_res of
                        Resolved code payload message \<Rightarrow>
                          if code = 1
                          then (toast_success ''Company deleted successfully!'' st)
                                 \<lparr>companies :=
                                    filter (\<lambda>c. company_id c \<noteq> company_id sel) (companies st)\<rparr>
                          else toast_error (or_default message ''Failed to delete company'') st
                      | Rejected message \<Rightarrow>
                          toast_error (or_default message ''Failed to delete company'') st)
               in st1\<lparr>deleteModal := False, selectedCompany := None\<rparr>))"

definition handleEditClick :: "page_state \<Rightarrow> company \<Rightarrow> page_state" where
  "handleEditClick st c =
    (if \<not> isSuperAdmin st
     then toast_error
            ''You don't have permission to edit companies. Only SuperAdmin can edit.'' st
     else st\<lparr>selectedCompany := Some c, editModal := True\<rparr>)"

definition handleDeleteClick :: "page_state \<Rightarrow> company \<Rightarrow> page_state" where
  "handleDeleteClick st c =
    (if \<not> isSuperAdmin st
     then toast_error
            ''You don't have permission to delete companies. Only SuperAdmin can delete.'' st
     else st\<lparr>selectedCompany := Some c, deleteModal := True\<rparr>)"

text \<open>The header cells of the table, and the buttons in the last cell of a company's row.\<close>

definition tableHeader :: "page_state \<Rightarrow> string list" where
  "tableHeader st =
    [''ID'', ''Name'', ''Email'', ''Phone'', ''Address'', ''Logo'']
    @ (if isSuperAdmin st then [''Actions''] else [])"

datatype action_button = Edit_button company | Delete_button company

definition rowActions :: "page_state \<Rightarrow> company \<Rightarrow> action_button list" where
  "rowActions st c = (if isSuperAdmin st then [Edit_button c, Delete_button c] else [])"

text \<open>
  \<^verbatim>\<open>onClick={() => handleEditClick(c)}\<close> and \<^verbatim>\<open>onClick={() => handleDeleteClick(c)}\<close>.
\<close>

fun press :: "page_state \<Rightarrow> action_button \<Rightarrow> page_state" where
  "press st (Edit_button c) = handleEditClick st c"
| "press st (Delete_button c) = handleDeleteClick st c"

text \<open>
  What the page returns, given \<^verbatim>\<open>filteredCompanies\<close> (the companies the search box lets
  through): a spinner while loading, else the table, the edit modal and the delete modal.
  A modal is there only while its flag is set and a company is selected:
  \<^verbatim>\<open>{editModal && selectedCompany && (...)}\<close>; its Update or Delete button calls
  \<^verbatim>\<open>handleUpdate\<close> or \<^verbatim>\<open>handleDelete\<close>. With no company to show the body of the table is
  one cell saying so, here the empty list of rows.
\<close>

datatype page_view =
  Loading_spinner
| Company_page "string list" "(company \<times> action_button list) list"
    "company option" "company option"

definition ShowCompanyPage :: "page_state \<Rightarrow> company list \<Rightarrow> page_view" where
  "ShowCompanyPage st filteredCompanies =
    (if loading st then Loading_spinner
     else Company_page (tableHeader st) (map (\<lambda>c. (c, rowActions st c)) filteredCompanies)
            (if editModal st then selectedCompany st else None)
            (if deleteModal st then selectedCompany st else None))"

section \<open>Properties of the chart\<close>

subsection \<open>The total, the segment list and the circles\<close>

lemma foldl_plus_sum_list: "foldl (\<lambda>sum count. sum + count) a xs = a + sum_list (xs :: real list)"
  by (induction xs arbitrary: a) simp_all

lemma total_sum_sum_list: "total_sum data = sum_list (map snd data)"
  by (simp add: total_sum_def Object_values_def foldl_plus_sum_list)

lemma circumference_pos: "0 < circumference"
  by (simp add: circumference_def radius_def size_px_def strokeWidth_px_def)

lemma distinct_statusOrder: "distinct statusOrder"
  by (simp add: statusOrder_def)

lemma length_renderSegments: "length (renderSegments a segs) = length segs"
  by (induction segs arbitrary: a) (simp_all add: Let_def)

lemma key_renderSegments: "map key (renderSegments a segs) = map status segs"
  by (induction segs arbitrary: a) (simp_all add: Let_def)

lemma dashOffset_renderSegments:
  "i < length segs \<Longrightarrow>
   strokeDashoffset (renderSegments a segs ! i)
   = - (a + sum_list (map percentage (take i segs))) * circumference / 100"
proof (induction segs arbitrary: a i)
  case Nil
  then show ?case by simp
next
  case (Cons seg rest)
  show ?case
  proof (cases i)
    case 0
    then show ?thesis by (simp add: Let_def)
  next
    case (Suc j)
    with Cons.prems have "j < length rest" by simp
    from Cons.IH [OF this, of "a + percentage seg"] Suc
    show ?thesis by (simp add: Let_def add.assoc)
  qed
qed

lemma map_filter_positive:
  "List.map_filter
     (\<lambda>s. case d s of None \<Rightarrow> None
          | Some (c::real) \<Rightarrow> if 0 < c then Some (F s c) else None) xs
   = map (\<lambda>s. F s (the (d s)))
       (filter (\<lambda>s. case d s of None \<Rightarrow> False | Some c \<Rightarrow> 0 < c) xs)"
  by (induction xs) (auto simp: List.map_filter_simps split: option.splits)

lemma segments_eq:
  "segments data t =
   map (\<lambda>s. \<lparr>status = s, count = the (data_at data s),
              percentage = the (data_at data s) / t * 100, color = map_of colors s\<rparr>)
     (filter (\<lambda>s. case data_at data s of None \<Rightarrow> False | Some c \<Rightarrow> 0 < c) statusOrder)"
  unfolding segments_def by (rule map_filter_positive)

lemma status_segments:
  "map status (segments data t)
   = filter (\<lambda>s. case data_at data s of None \<Rightarrow> False | Some c \<Rightarrow> 0 < c) statusOrder"
  by (simp add: segments_eq comp_def)

lemma segments_content:
  "map (\<lambda>seg. (status seg, count seg, percentage seg)) (segments data t)
   = map (\<lambda>s. (s, case data_at data s of None \<Rightarrow> 0 | Some c \<Rightarrow> c,
                  case data_at data s of None \<Rightarrow> 0 | Some c \<Rightarrow> c / t * 100))
       (filter (\<lambda>s. case data_at data s of None \<Rightarrow> False | Some c \<Rightarrow> 0 < c) statusOrder)"
  by (auto simp: segments_eq split: option.splits)

lemma arcs_renderSegments:
  "map (\<lambda>circ. fst (strokeDasharray circ)) (renderSegments a segs)
   = map (\<lambda>seg. max (percentage seg) 0.5 / 100 * circumference) segs"
  by (induction segs arbitrary: a) (simp_all add: Let_def)

lemma arcs_of_segments:
  "map (\<lambda>circ. fst (strokeDasharray circ)) (renderSegments a (segments data t))
   = map (\<lambda>s. max (case data_at data s of None \<Rightarrow> 0 | Some c \<Rightarrow> c / t * 100) 0.5
                / 100 * circumference)
       (filter (\<lambda>s. case data_at data s of None \<Rightarrow> False | Some c \<Rightarrow> 0 < c) statusOrder)"
  by (auto simp: arcs_renderSegments segments_eq split: option.splits)

lemma segmentCircles_DonutChart:
  "total_sum data \<noteq> 0 \<Longrightarrow>
   segmentCircles (DonutChart data) = renderSegments 0 (segments data (total_sum data))"
  by (simp add: DonutChart_def Let_def)

lemma filter_eq_distinct:
  "distinct xs \<Longrightarrow> filter (\<lambda>x. P x \<and> x = s) xs = (if s \<in> set xs \<and> P s then [s] else [])"
  by (induction xs) auto

lemma arcs_of_key:
  "map (\<lambda>circ. fst (strokeDasharray circ))
     (filter (\<lambda>circ. key circ = s) (renderSegments a segs))
   = map (\<lambda>seg. max (percentage seg) 0.5 / 100 * circumference)
       (filter (\<lambda>seg. status seg = s) segs)"
  by (induction segs arbitrary: a) (simp_all add: Let_def)

lemma segments_of_status:
  assumes "s \<in> set statusOrder" and "data_at data s = Some c" and "0 < c"
  shows "filter (\<lambda>seg. status seg = s) (segments data t)
         = [\<lparr>status = s, count = c, percentage = c / t * 100, color = map_of colors s\<rparr>]"
proof -
  let ?P = "\<lambda>s. case data_at data s of None \<Rightarrow> False | Some c \<Rightarrow> 0 < c"
  have "filter (\<lambda>x. x = s) (filter ?P statusOrder) = [s]"
    using assms by (simp add: filter_eq_distinct [OF distinct_statusOrder])
  then show ?thesis
    using assms(2) by (simp add: segments_eq filter_map comp_def)
qed

subsection \<open>Arc lengths and start offsets\<close>

text \<open>
  C1. When the total is positive, a category of \<open>statusOrder\<close> with a positive count \<open>c\<close> has
  exactly one circle, and the arc length of that circle (the first number of its
  \<open>strokeDasharray\<close>) is \<open>max (c / total * 100) 0.5 / 100\<close> of the circumference: the true
  share of the circumference when the true percentage is at least 0.5, and 0.5 percent of
  the circumference when the true percentage, which is positive, is below 0.5.
\<close>

theorem arc_length_of_segment:
  assumes "0 < total_sum data" and "s \<in> set statusOrder"
    and "data_at data s = Some c" and "0 < c"
  shows "map (\<lambda>circ. fst (strokeDasharray circ))
           (filter (\<lambda>circ. key circ = s) (segmentCircles (DonutChart data)))
         = [max (c / total_sum data * 100) 0.5 / 100 * circumference]
       \<and> (0.5 \<le> c / total_sum data * 100 \<longrightarrow>
            map (\<lambda>circ. fst (strokeDasharray circ))
              (filter (\<lambda>circ. key circ = s) (segmentCircles (DonutChart data)))
            = [(c / total_sum data * 100) / 100 * circumference])
       \<and> (c / total_sum data * 100 < 0.5 \<longrightarrow>
            map (\<lambda>circ. fst (strokeDasharray circ))
              (filter (\<lambda>circ. key circ = s) (segmentCircles (DonutChart data)))
            = [0.5 / 100 * circumference])
       \<and> 0 < c / total_sum data * 100"
proof -
  have nz: "total_sum data \<noteq> 0" using assms(1) by simp
  have arcs: "map (\<lambda>circ. fst (strokeDasharray circ))
           (filter (\<lambda>circ. key circ = s) (segmentCircles (DonutChart data)))
         = [max (c / total_sum data * 100) 0.5 / 100 * circumference]"
    by (simp add: segmentCircles_DonutChart [OF nz] arcs_of_key
          segments_of_status [OF assms(2,3,4)])
  have pos: "0 < c / total_sum data * 100"
    using assms(1,4) by simp
  show ?thesis
    unfolding arcs using pos by (simp add: max_def)
qed

theorem arc_length_of_segment_witness:
  "0 < total_sum [(''OPEN'', 1), (''COMPLETED'', 999)]
   \<and> ''OPEN'' \<in> set statusOrder
   \<and> data_at [(''OPEN'', 1), (''COMPLETED'', 999)] ''OPEN'' = Some 1
   \<and> (0::real) < 1
   \<and> map (\<lambda>circ. fst (strokeDasharray circ))
         (filter (\<lambda>circ. key circ = ''OPEN'')
            (segmentCircles (DonutChart [(''OPEN'', 1), (''COMPLETED'', 999)])))
       = [0.5 / 100 * circumference]
   \<and> ''COMPLETED'' \<in> set statusOrder
   \<and> data_at [(''OPEN'', 1), (''COMPLETED'', 999)] ''COMPLETED'' = Some 999
   \<and> map (\<lambda>circ. fst (strokeDasharray circ))
         (filter (\<lambda>circ. key circ = ''COMPLETED'')
            (segmentCircles (DonutChart [(''OPEN'', 1), (''COMPLETED'', 999)])))
       = [99.9 / 100 * circumference]"
  using arc_length_of_segment [of "[(''OPEN'', 1), (''COMPLETED'', 999)]" "''OPEN''" 1]
    arc_length_of_segment [of "[(''OPEN'', 1), (''COMPLETED'', 999)]" "''COMPLETED''" 999]
  by (simp add: total_sum_def Object_values_def data_at_def statusOrder_def)

text \<open>
  C2. When the total is positive, the circles are drawn for the categories of \<open>statusOrder\<close>
  with a positive count, in that order, and each circle starts at the sum of the true
  percentages \<open>count / total * 100\<close> of the circles before it: its dash offset is minus
  that sum as a share of the circumference. The sum runs over true percentages only, so
  the floor of 0.5 on the arc length of an earlier circle never moves a later one.
\<close>

theorem start_offsets_cumulative:
  assumes "0 < total_sum data"
  shows "map key (segmentCircles (DonutChart data))
         = filter (\<lambda>s. case data_at data s of None \<Rightarrow> False | Some c \<Rightarrow> 0 < c) statusOrder
       \<and> (\<forall>i < length (segmentCircles (DonutChart data)).
            strokeDashoffset (segmentCircles (DonutChart data) ! i)
            = - (\<Sum>s \<leftarrow> take i (map key (segmentCircles (DonutChart data))).
                   case data_at data s of None \<Rightarrow> 0 | Some c \<Rightarrow> c / total_sum data * 100)
                * circumference / 100
          \<and> - strokeDashoffset (segmentCircles (DonutChart data) ! i) * 100 / circumference
            = (\<Sum>s \<leftarrow> take i (map key (segmentCircles (DonutChart data))).
                 case data_at data s of None \<Rightarrow> 0 | Some c \<Rightarrow> c / total_sum data * 100))"
proof -
  let ?T = "total_sum data"
  let ?P = "\<lambda>s. case data_at data s of None \<Rightarrow> False | Some c \<Rightarrow> 0 < c"
  let ?segs = "segments data ?T"
  let ?pct = "\<lambda>s. case data_at data s of None \<Rightarrow> 0 | Some c \<Rightarrow> c / ?T * 100"
  have nz: "?T \<noteq> 0" using assms by simp
  have cs: "segmentCircles (DonutChart data) = renderSegments 0 ?segs"
    by (rule segmentCircles_DonutChart [OF nz])
  have keys: "map key (segmentCircles (DonutChart data)) = filter ?P statusOrder"
    by (simp add: cs key_renderSegments status_segments)
  have pct: "map percentage ?segs = map ?pct (filter ?P statusOrder)"
    by (auto simp: segments_eq split: option.splits)
  have offset: "strokeDashoffset (segmentCircles (DonutChart data) ! i)
        = - (\<Sum>s \<leftarrow> take i (map key (segmentCircles (DonutChart data))). ?pct s)
            * circumference / 100"
    if "i < length (segmentCircles (DonutChart data))" for i
  proof -
    from that have "i < length ?segs" by (simp add: cs length_renderSegments)
    then have "strokeDashoffset (renderSegments 0 ?segs ! i)
               = - (0 + sum_list (map percentage (take i ?segs))) * circumference / 100"
      by (rule dashOffset_renderSegments)
    moreover have "map percentage (take i ?segs) = map ?pct (take i (filter ?P statusOrder))"
      using pct by (simp add: take_map [symmetric])
    ultimately show ?thesis by (simp add: cs keys [unfolded cs])
  qed
  have start: "- strokeDashoffset (segmentCircles (DonutChart data) ! i) * 100 / circumference
        = (\<Sum>s \<leftarrow> take i (map key (segmentCircles (DonutChart data))). ?pct s)"
    if "i < length (segmentCircles (DonutChart data))" for i
    using circumference_pos by (simp add: offset [OF that])
  from keys offset start show ?thesis by blast
qed

theorem start_offsets_cumulative_witness:
  "0 < total_sum [(''OPEN'', 1), (''COMPLETED'', 999)]
   \<and> map key (segmentCircles (DonutChart [(''OPEN'', 1), (''COMPLETED'', 999)]))
       = [''OPEN'', ''COMPLETED'']
   \<and> strokeDashoffset (segmentCircles (DonutChart [(''OPEN'', 1), (''COMPLETED'', 999)]) ! 0) = 0
   \<and> strokeDashoffset (segmentCircles (DonutChart [(''OPEN'', 1), (''COMPLETED'', 999)]) ! 1)
       = - 0.1 * circumference / 100"
proof -
  let ?D = "[(''OPEN'', 1), (''COMPLETED'', 999)] :: counts"
  have h: "0 < total_sum ?D"
    by (simp add: total_sum_def Object_values_def)
  note th = start_offsets_cumulative [OF h]
  have keys: "map key (segmentCircles (DonutChart ?D)) = [''OPEN'', ''COMPLETED'']"
    using th by (simp add: data_at_def statusOrder_def)
  have "length (map key (segmentCircles (DonutChart ?D))) = 2"
    by (simp only: keys) simp
  then have len: "length (segmentCircles (DonutChart ?D)) = 2" by simp
  have "strokeDashoffset (segmentCircles (DonutChart ?D) ! 0) = 0"
    using th [THEN conjunct2, rule_format, of 0, THEN conjunct1] len by simp
  moreover have "strokeDashoffset (segmentCircles (DonutChart ?D) ! 1) = - 0.1 * circumference / 100"
    using th [THEN conjunct2, rule_format, of 1, THEN conjunct1] len
    by (simp add: keys data_at_def total_sum_def Object_values_def)
  ultimately show ?thesis using h keys by simp
qed

subsection \<open>The percentages tile the circle\<close>

lemma sum_list_single_key:
  "distinct xs \<Longrightarrow>
   (\<Sum>s \<leftarrow> xs. if s = k then v else 0) = (if k \<in> set xs then (v::real) else 0)"
  by (induction xs) auto

lemma sum_list_lookup:
  assumes "distinct xs"
  shows "distinct (map fst data) \<Longrightarrow> fst ` set data \<subseteq> set xs \<Longrightarrow>
         (\<Sum>s \<leftarrow> xs. case map_of data s of None \<Rightarrow> 0 | Some c \<Rightarrow> c)
         = sum_list (map snd (data :: (string \<times> real) list))"
proof (induction data)
  case Nil
  then show ?case by simp
next
  case (Cons kv rest)
  obtain k v where kv: "kv = (k, v)" by (cases kv)
  let ?g = "\<lambda>s. case map_of rest s of None \<Rightarrow> 0 | Some c \<Rightarrow> c"
  from Cons.prems kv have fresh: "map_of rest k = None" and k_in: "k \<in> set xs"
    by (auto simp: map_of_eq_None_iff)
  have "(\<Sum>s \<leftarrow> xs. case map_of (kv # rest) s of None \<Rightarrow> 0 | Some c \<Rightarrow> c)
        = (\<Sum>s \<leftarrow> xs. ?g s + (if s = k then v else 0))"
    by (rule arg_cong [where f = sum_list], rule map_cong) (auto simp: kv fresh)
  also have "\<dots> = (\<Sum>s \<leftarrow> xs. ?g s) + (\<Sum>s \<leftarrow> xs. if s = k then v else 0)"
    by (simp add: sum_list_addf)
  also have "(\<Sum>s \<leftarrow> xs. if s = k then v else 0) = v"
    using assms k_in by (simp add: sum_list_single_key)
  also have "(\<Sum>s \<leftarrow> xs. ?g s) = sum_list (map snd rest)"
    using Cons.prems by (intro Cons.IH) auto
  finally show ?case by (simp add: kv)
qed

text \<open>
  C3, counterexample. The total sums every value of the object, so the true percentages
  of the segments drawn need not sum to 100. With OPEN at 1 and an extra key at 3 the total
  is 4 and the one segment has 25 percent; with OPEN at 3 and PENDING at -1 the total is 2
  and the one segment has 150 percent.
\<close>

theorem true_percentages_sum_counterexample:
  "0 < total_sum [(''OPEN'', 1), (''ARCHIVED'', 3)]
   \<and> map key (segmentCircles (DonutChart [(''OPEN'', 1), (''ARCHIVED'', 3)])) = [''OPEN'']
   \<and> map (\<lambda>seg. (status seg, count seg, percentage seg))
         (segments [(''OPEN'', 1), (''ARCHIVED'', 3)]
            (total_sum [(''OPEN'', 1), (''ARCHIVED'', 3)])) = [(''OPEN'', 1, 25)]
   \<and> (\<Sum>seg \<leftarrow> segments [(''OPEN'', 1), (''ARCHIVED'', 3)]
                   (total_sum [(''OPEN'', 1), (''ARCHIVED'', 3)]). percentage seg) = 25
   \<and> (\<Sum>seg \<leftarrow> segments [(''OPEN'', 1), (''ARCHIVED'', 3)]
                   (total_sum [(''OPEN'', 1), (''ARCHIVED'', 3)]). percentage seg) \<noteq> 100
   \<and> 0 < total_sum [(''OPEN'', 3), (''PENDING'', - 1)]
   \<and> map key (segmentCircles (DonutChart [(''OPEN'', 3), (''PENDING'', - 1)])) = [''OPEN'']
   \<and> map (\<lambda>seg. (status seg, count seg, percentage seg))
         (segments [(''OPEN'', 3), (''PENDING'', - 1)]
            (total_sum [(''OPEN'', 3), (''PENDING'', - 1)])) = [(''OPEN'', 3, 150)]
   \<and> (\<Sum>seg \<leftarrow> segments [(''OPEN'', 3), (''PENDING'', - 1)]
                   (total_sum [(''OPEN'', 3), (''PENDING'', - 1)]). percentage seg) = 150
   \<and> (\<Sum>seg \<leftarrow> segments [(''OPEN'', 3), (''PENDING'', - 1)]
                   (total_sum [(''OPEN'', 3), (''PENDING'', - 1)]). percentage seg) \<noteq> 100"
  by (simp add: DonutChart_def total_sum_def Object_values_def segments_def
        List.map_filter_simps data_at_def statusOrder_def Let_def)

text \<open>
  C3, amended. For a counts mapping with a positive total whose keys all belong to
  \<open>statusOrder\<close> (each key once, as in any object) and whose counts are not negative, the
  chart draws the categories with a positive count, each segment has the percentage
  \<open>count / total * 100\<close> of its category, and these percentages sum to 100.
\<close>

theorem true_percentages_sum_to_100:
  assumes "0 < total_sum data"
    and "distinct (map fst data)"
    and "\<forall>(k, v) \<in> set data. k \<in> set statusOrder \<and> 0 \<le> v"
  shows "segmentCircles (DonutChart data) = renderSegments 0 (segments data (total_sum data))
       \<and> map key (segmentCircles (DonutChart data))
           = filter (\<lambda>s. case data_at data s of None \<Rightarrow> False | Some c \<Rightarrow> 0 < c) statusOrder
       \<and> map (\<lambda>seg. (status seg, count seg, percentage seg)) (segments data (total_sum data))
           = map (\<lambda>s. (s, case data_at data s of None \<Rightarrow> 0 | Some c \<Rightarrow> c,
                          case data_at data s of None \<Rightarrow> 0 | Some c \<Rightarrow> c / total_sum data * 100))
               (filter (\<lambda>s. case data_at data s of None \<Rightarrow> False | Some c \<Rightarrow> 0 < c) statusOrder)
       \<and> (\<Sum>s \<leftarrow> map key (segmentCircles (DonutChart data)).
              case data_at data s of None \<Rightarrow> 0 | Some c \<Rightarrow> c / total_sum data * 100) = 100
       \<and> (\<Sum>seg \<leftarrow> segments data (total_sum data). percentage seg) = 100"
proof -
  let ?T = "total_sum data"
  let ?P = "\<lambda>s. case data_at data s of None \<Rightarrow> False | Some c \<Rightarrow> 0 < c"
  let ?n = "\<lambda>s. case map_of data s of None \<Rightarrow> 0 | Some c \<Rightarrow> c"
  let ?pct = "\<lambda>s. case data_at data s of None \<Rightarrow> 0 | Some c \<Rightarrow> c / ?T * 100"
  have nz: "?T \<noteq> 0" using assms(1) by simp
  have drawn: "segmentCircles (DonutChart data) = renderSegments 0 (segments data ?T)"
    by (rule segmentCircles_DonutChart [OF nz])
  have keys: "map key (segmentCircles (DonutChart data)) = filter ?P statusOrder"
    by (simp add: drawn key_renderSegments status_segments)
  have nonneg: "0 \<le> c" if "data_at data s = Some c" for s c
    using that assms(3) by (auto simp: data_at_def dest!: map_of_SomeD)
  have pointwise: "(if ?P s then ?pct s else 0) = ?n s * (100 / ?T)" for s
    using nonneg [of s] by (auto simp: data_at_def split: option.splits)
  have "(\<Sum>s \<leftarrow> filter ?P statusOrder. ?pct s)
        = (\<Sum>s \<leftarrow> statusOrder. if ?P s then ?pct s else 0)"
    by (rule sum_list_map_filter')
  also have "\<dots> = (\<Sum>s \<leftarrow> statusOrder. ?n s * (100 / ?T))"
    by (simp only: pointwise)
  also have "\<dots> = (\<Sum>s \<leftarrow> statusOrder. ?n s) * (100 / ?T)"
    by (rule sum_list_mult_const)
  also have "(\<Sum>s \<leftarrow> statusOrder. ?n s) = sum_list (map snd data)"
    using assms(2,3) by (intro sum_list_lookup distinct_statusOrder) auto
  also have "sum_list (map snd data) = ?T"
    by (simp add: total_sum_sum_list)
  finally have by_key: "(\<Sum>s \<leftarrow> filter ?P statusOrder. ?pct s) = 100"
    using assms(1) by simp
  have "map percentage (segments data ?T) = map ?pct (filter ?P statusOrder)"
    by (auto simp: segments_eq split: option.splits)
  then have by_seg: "(\<Sum>seg \<leftarrow> segments data ?T. percentage seg) = 100"
    using by_key by simp
  have by_circle: "(\<Sum>s \<leftarrow> map key (segmentCircles (DonutChart data)). ?pct s) = 100"
    by (simp only: keys by_key)
  from drawn keys segments_content [of data ?T] by_circle by_seg show ?thesis
    by blast
qed

theorem true_percentages_sum_to_100_witness:
  "0 < total_sum [(''OPEN'', 1), (''COMPLETED'', 999)]
   \<and> distinct (map fst [(''OPEN'', 1 :: real), (''COMPLETED'', 999)])
   \<and> set (map fst [(''OPEN'', 1 :: real), (''COMPLETED'', 999)]) \<subseteq> set statusOrder
   \<and> map key (segmentCircles (DonutChart [(''OPEN'', 1), (''COMPLETED'', 999)]))
       = [''OPEN'', ''COMPLETED'']
   \<and> map (\<lambda>seg. (status seg, count seg, percentage seg))
         (segments [(''OPEN'', 1), (''COMPLETED'', 999)]
            (total_sum [(''OPEN'', 1), (''COMPLETED'', 999)]))
       = [(''OPEN'', 1, 0.1), (''COMPLETED'', 999, 99.9)]
   \<and> (\<Sum>seg \<leftarrow> segments [(''OPEN'', 1), (''COMPLETED'', 999)]
                   (total_sum [(''OPEN'', 1), (''COMPLETED'', 999)]). percentage seg) = 100"
proof -
  let ?D = "[(''OPEN'', 1), (''COMPLETED'', 999)] :: counts"
  have h1: "0 < total_sum ?D"
    by (simp add: total_sum_def Object_values_def)
  have h2: "distinct (map fst ?D)" by simp
  have h3: "\<forall>(k, v) \<in> set ?D. k \<in> set statusOrder \<and> 0 \<le> v"
    by (simp add: statusOrder_def)
  have sub: "set (map fst ?D) \<subseteq> set statusOrder" by (simp add: statusOrder_def)
  note th = true_percentages_sum_to_100 [OF h1 h2 h3]
  from th [THEN conjunct2, THEN conjunct1]
  have keys: "map key (segmentCircles (DonutChart ?D)) = [''OPEN'', ''COMPLETED'']"
    by (simp add: data_at_def statusOrder_def)
  from th [THEN conjunct2, THEN conjunct2, THEN conjunct1]
  have content: "map (\<lambda>seg. (status seg, count seg, percentage seg))
      (segments ?D (total_sum ?D)) = [(''OPEN'', 1, 0.1), (''COMPLETED'', 999, 99.9)]"
    by (simp add: data_at_def statusOrder_def total_sum_def Object_values_def)
  from th have total: "(\<Sum>seg \<leftarrow> segments ?D (total_sum ?D). percentage seg) = 100"
    by blast
  from h1 h2 sub keys content total show ?thesis by blast
qed

subsection \<open>Order of the segments\<close>

lemma count_list_distinct:
  "distinct xs \<Longrightarrow> count_list xs s = (if s \<in> set xs then 1 else 0)"
  by (induction xs) auto

lemma positive_iff:
  "(case data_at data s of None \<Rightarrow> False | Some c \<Rightarrow> 0 < c)
   \<longleftrightarrow> (\<exists>c. data_at data s = Some c \<and> 0 < c)"
  by (simp split: option.splits)

lemma no_positive_when_zero_total:
  assumes "total_sum data = 0" and "\<forall>(k, v) \<in> set data. 0 \<le> v"
  shows "filter (\<lambda>s. case data_at data s of None \<Rightarrow> False | Some c \<Rightarrow> 0 < c) xs = []"
proof -
  have "0 \<le> x" if "x \<in> set (map snd data)" for x using that assms(2) by auto
  then have "sum_list (map snd data) = 0 \<longleftrightarrow> (\<forall>x \<in> set (map snd data). x = 0)"
    by (rule sum_list_nonneg_eq_0_iff)
  then have "\<forall>x \<in> set (map snd data). x = 0"
    using assms(1) by (simp add: total_sum_sum_list)
  then have "c = 0" if "data_at data s = Some c" for s c
    using that by (auto simp: data_at_def dest!: map_of_SomeD)
  then show ?thesis
    by (auto simp: filter_empty_conv split: option.splits)
qed

lemma example_chart:
  "map (\<lambda>circ. (key circ, strokeDashoffset circ))
     (segmentCircles (DonutChart [(''OPEN'', 1), (''COMPLETED'', 1000)]))
   = [(''OPEN'', 0), (''COMPLETED'', - (1 / 1001 * 100) * circumference / 100)]"
  by (simp add: DonutChart_def total_sum_def Object_values_def segments_def
        List.map_filter_simps data_at_def statusOrder_def Let_def)

text \<open>
  C4. The segment list holds the categories of the fixed order OPEN, PENDING, INPROGRESS,
  CLOSED, COMPLETED whose count is positive, each exactly once and in that order, whatever
  the sizes of the counts; the circles drawn are these segments whenever the total is not
  zero or no count is negative. With OPEN at 1 and COMPLETED at 1000 the circle of OPEN
  comes first and starts at offset 0.
\<close>

theorem segments_in_statusOrder:
  "statusOrder = [''OPEN'', ''PENDING'', ''INPROGRESS'', ''CLOSED'', ''COMPLETED'']
   \<and> map status (segments data (total_sum data))
       = filter (\<lambda>s. case data_at data s of None \<Rightarrow> False | Some c \<Rightarrow> 0 < c) statusOrder
   \<and> (\<forall>s. count_list (map status (segments data (total_sum data))) s
            = (if s \<in> set statusOrder \<and> (\<exists>c. data_at data s = Some c \<and> 0 < c) then 1 else 0))
   \<and> (total_sum data \<noteq> 0 \<or> (\<forall>(k, v) \<in> set data. 0 \<le> v) \<longrightarrow>
         map key (segmentCircles (DonutChart data))
         = filter (\<lambda>s. case data_at data s of None \<Rightarrow> False | Some c \<Rightarrow> 0 < c) statusOrder)
   \<and> map (\<lambda>circ. (key circ, strokeDashoffset circ))
         (segmentCircles (DonutChart [(''OPEN'', 1), (''COMPLETED'', 1000)]))
       = [(''OPEN'', 0), (''COMPLETED'', - (1 / 1001 * 100) * circumference / 100)]"
proof -
  let ?P = "\<lambda>s. case data_at data s of None \<Rightarrow> False | Some c \<Rightarrow> 0 < c"
  have order: "statusOrder = [''OPEN'', ''PENDING'', ''INPROGRESS'', ''CLOSED'', ''COMPLETED'']"
    by (simp add: statusOrder_def)
  have sts: "map status (segments data (total_sum data)) = filter ?P statusOrder"
    by (rule status_segments)
  have once: "count_list (map status (segments data (total_sum data))) s
              = (if s \<in> set statusOrder \<and> (\<exists>c. data_at data s = Some c \<and> 0 < c) then 1 else 0)"
    for s
    unfolding sts
    by (simp add: count_list_distinct distinct_statusOrder positive_iff)
  have drawn: "map key (segmentCircles (DonutChart data)) = filter ?P statusOrder"
    if "total_sum data \<noteq> 0 \<or> (\<forall>(k, v) \<in> set data. 0 \<le> v)"
  proof (cases "total_sum data = 0")
    case True
    with that have "\<forall>(k, v) \<in> set data. 0 \<le> v" by simp
    from no_positive_when_zero_total [OF True this] True
    show ?thesis by (simp add: DonutChart_def)
  next
    case False
    then show ?thesis
      by (simp add: segmentCircles_DonutChart key_renderSegments status_segments)
  qed
  from order sts once drawn example_chart show ?thesis by blast
qed

theorem segments_in_statusOrder_witness:
  "total_sum [(''COMPLETED'', 1000), (''OPEN'', 1)] \<noteq> 0
   \<and> map key (segmentCircles (DonutChart [(''COMPLETED'', 1000), (''OPEN'', 1)]))
       = [''OPEN'', ''COMPLETED'']
   \<and> count_list (map status (segments [(''COMPLETED'', 1000), (''OPEN'', 1)]
                                 (total_sum [(''COMPLETED'', 1000), (''OPEN'', 1)]))) ''OPEN'' = 1"
proof -
  let ?D = "[(''COMPLETED'', 1000), (''OPEN'', 1)] :: counts"
  have h: "total_sum ?D \<noteq> 0"
    by (simp add: total_sum_def Object_values_def)
  note th = segments_in_statusOrder [of ?D]
  from th h have "map key (segmentCircles (DonutChart ?D))
      = filter (\<lambda>s. case data_at ?D s of None \<Rightarrow> False | Some c \<Rightarrow> 0 < c) statusOrder"
    by blast
  then have keys: "map key (segmentCircles (DonutChart ?D)) = [''OPEN'', ''COMPLETED'']"
    by (simp add: data_at_def statusOrder_def)
  from th have "count_list (map status (segments ?D (total_sum ?D))) ''OPEN''
      = (if ''OPEN'' \<in> set statusOrder \<and> (\<exists>c. data_at ?D ''OPEN'' = Some c \<and> 0 < c) then 1 else 0)"
    by blast
  then have "count_list (map status (segments ?D (total_sum ?D))) ''OPEN'' = 1"
    by (simp add: data_at_def statusOrder_def)
  with h keys show ?thesis by simp
qed

subsection \<open>The empty state\<close>

text \<open>
  C5. When the counts sum to zero the chart returns the placeholder (icon and message)
  and draws no segment; the placeholder is returned in no other case. The map
  with all five statuses at zero is such an input.
\<close>

theorem zero_total_empty_state:
  "(total_sum data = 0 \<longrightarrow>
      DonutChart data = EmptyState ''Activity'' ''No tickets assigned yet''
                          ''Tickets will appear here once assigned''
      \<and> segmentCircles (DonutChart data) = [])
   \<and> (total_sum data \<noteq> 0 \<longrightarrow> (\<exists>bg cs t cap. DonutChart data = Donut bg cs t cap))"
  by (simp add: DonutChart_def Let_def)

theorem zero_total_empty_state_witness:
  "total_sum [(''COMPLETED'', 0), (''CLOSED'', 0), (''INPROGRESS'', 0), (''PENDING'', 0), (''OPEN'', 0)] = 0
   \<and> DonutChart [(''COMPLETED'', 0), (''CLOSED'', 0), (''INPROGRESS'', 0), (''PENDING'', 0), (''OPEN'', 0)]
       = EmptyState ''Activity'' ''No tickets assigned yet'' ''Tickets will appear here once assigned''
   \<and> segmentCircles (DonutChart [(''COMPLETED'', 0), (''CLOSED'', 0), (''INPROGRESS'', 0), (''PENDING'', 0), (''OPEN'', 0)]) = []"
  using zero_total_empty_state
    [of "[(''COMPLETED'', 0), (''CLOSED'', 0), (''INPROGRESS'', 0), (''PENDING'', 0), (''OPEN'', 0)]"]
  by (simp add: total_sum_def Object_values_def)

subsection \<open>Keys outside the fixed order\<close>

lemma data_at_extra_key:
  "s \<noteq> k \<Longrightarrow> data_at (xs @ (k, v) # ys) s = data_at (xs @ ys) s"
  by (simp add: data_at_def map_add_def split: option.splits)

lemma segments_extra_key:
  assumes "k \<notin> set statusOrder"
  shows "segments (xs @ (k, v) # ys) t = segments (xs @ ys) t"
proof -
  have "data_at (xs @ (k, v) # ys) s = data_at (xs @ ys) s" if "s \<in> set statusOrder" for s
    using that assms by (intro data_at_extra_key) auto
  then show ?thesis
    unfolding segments_def List.map_filter_def
    by (intro arg_cong2 [where f = map] filter_cong map_cong refl) (auto cong: option.case_cong)
qed

lemma total_sum_extra_key:
  "total_sum (xs @ (k, v) # ys) = total_sum (xs @ ys) + v"
  by (simp add: total_sum_sum_list)

lemma keys_in_statusOrder:
  "set (map key (segmentCircles (DonutChart data))) \<subseteq> set statusOrder"
proof (cases "total_sum data = 0")
  case True
  then show ?thesis by (simp add: DonutChart_def)
next
  case False
  then show ?thesis
    by (simp add: segmentCircles_DonutChart key_renderSegments status_segments)
qed

lemma DonutChart_extra_key_iff:
  assumes "k \<notin> set statusOrder"
  shows "DonutChart (xs @ (k, v) # ys) = DonutChart (xs @ ys) \<longleftrightarrow> v = 0"
proof
  assume "v = 0"
  then show "DonutChart (xs @ (k, v) # ys) = DonutChart (xs @ ys)"
    using total_sum_extra_key [of xs k 0 ys]
    by (simp add: DonutChart_def Let_def segments_extra_key [OF assms])
next
  assume eq: "DonutChart (xs @ (k, v) # ys) = DonutChart (xs @ ys)"
  show "v = 0"
  proof (cases "total_sum (xs @ ys) + v = 0")
    case True
    with eq have "total_sum (xs @ ys) = 0"
      by (simp add: DonutChart_def Let_def total_sum_extra_key split: if_splits)
    with True show ?thesis by simp
  next
    case False
    with eq show ?thesis
      by (simp add: DonutChart_def Let_def total_sum_extra_key split: if_splits)
  qed
qed

text \<open>
  C6, counterexample. A key outside \<open>statusOrder\<close> gets no segment, but its value is part
  of \<^verbatim>\<open>Object.values(data)\<close> and so of the total: it does change the total and the
  percentages. With OPEN at 1 and an extra key at 3 the total is 4 and OPEN is drawn with
  25 percent; without the extra key the total is 1 and OPEN has 100 percent.
\<close>

theorem extra_key_changes_total_counterexample:
  "''ARCHIVED'' \<notin> set statusOrder
   \<and> total_sum [(''OPEN'', 1), (''ARCHIVED'', 3)] \<noteq> total_sum [(''OPEN'', 1)]
   \<and> map percentage (segments [(''OPEN'', 1), (''ARCHIVED'', 3)]
                         (total_sum [(''OPEN'', 1), (''ARCHIVED'', 3)]))
       \<noteq> map percentage (segments [(''OPEN'', 1)] (total_sum [(''OPEN'', 1)]))
   \<and> total_sum [(''OPEN'', 1), (''ARCHIVED'', 3)] = 4
   \<and> total_sum [(''OPEN'', 1)] = 1
   \<and> map percentage (segments [(''OPEN'', 1), (''ARCHIVED'', 3)]
                         (total_sum [(''OPEN'', 1), (''ARCHIVED'', 3)])) = [25]
   \<and> map percentage (segments [(''OPEN'', 1)] (total_sum [(''OPEN'', 1)])) = [100]"
  by (simp add: total_sum_def Object_values_def segments_def List.map_filter_simps
        data_at_def statusOrder_def)

text \<open>
  C6, amended. A key outside \<open>statusOrder\<close>, wherever it stands in the object, gets no
  segment, and its value is added to the total. When that total is 0 the chart is the
  placeholder and draws nothing. Otherwise the chart draws the categories of \<open>statusOrder\<close>
  with a positive count, in that order, each with its own count, with the percentage
  \<open>count / (total of the other values + extra value) * 100\<close> and with the arc length that
  percentage gives under the floor of 0.5. The total, and the chart, are those of the
  mapping without the key exactly when the extra value is 0; so is the percentage of a
  category with a positive count, where both totals are not 0.
\<close>

theorem extra_key_counted_in_total:
  assumes "k \<notin> set statusOrder"
  shows "k \<notin> set (map key (segmentCircles (DonutChart (xs @ (k, v) # ys))))
       \<and> total_sum (xs @ (k, v) # ys) = total_sum (xs @ ys) + v
       \<and> (total_sum (xs @ ys) + v = 0 \<longrightarrow>
             DonutChart (xs @ (k, v) # ys)
             = EmptyState ''Activity'' ''No tickets assigned yet''
                 ''Tickets will appear here once assigned''
           \<and> segmentCircles (DonutChart (xs @ (k, v) # ys)) = [])
       \<and> (total_sum (xs @ ys) + v \<noteq> 0 \<longrightarrow>
             segmentCircles (DonutChart (xs @ (k, v) # ys))
             = renderSegments 0 (segments (xs @ (k, v) # ys) (total_sum (xs @ (k, v) # ys)))
           \<and> map key (segmentCircles (DonutChart (xs @ (k, v) # ys)))
             = filter (\<lambda>s. case data_at (xs @ ys) s of None \<Rightarrow> False | Some c \<Rightarrow> 0 < c)
                 statusOrder
           \<and> map (\<lambda>seg. (status seg, count seg, percentage seg))
               (segments (xs @ (k, v) # ys) (total_sum (xs @ (k, v) # ys)))
             = map (\<lambda>s. (s, case data_at (xs @ ys) s of None \<Rightarrow> 0 | Some c \<Rightarrow> c,
                            case data_at (xs @ ys) s of None \<Rightarrow> 0
                            | Some c \<Rightarrow> c / (total_sum (xs @ ys) + v) * 100))
                 (filter (\<lambda>s. case data_at (xs @ ys) s of None \<Rightarrow> False | Some c \<Rightarrow> 0 < c)
                    statusOrder)
           \<and> map (\<lambda>circ. fst (strokeDasharray circ))
               (segmentCircles (DonutChart (xs @ (k, v) # ys)))
             = map (\<lambda>s. max (case data_at (xs @ ys) s of None \<Rightarrow> 0
                              | Some c \<Rightarrow> c / (total_sum (xs @ ys) + v) * 100) 0.5
                          / 100 * circumference)
                 (filter (\<lambda>s. case data_at (xs @ ys) s of None \<Rightarrow> False | Some c \<Rightarrow> 0 < c)
                    statusOrder))
       \<and> (total_sum (xs @ (k, v) # ys) = total_sum (xs @ ys) \<longleftrightarrow> v = 0)
       \<and> (DonutChart (xs @ (k, v) # ys) = DonutChart (xs @ ys) \<longleftrightarrow> v = 0)
       \<and> (total_sum (xs @ ys) \<noteq> 0 \<and> total_sum (xs @ ys) + v \<noteq> 0
            \<and> data_at (xs @ ys) s = Some c \<and> 0 < c \<longrightarrow>
             (c / (total_sum (xs @ ys) + v) * 100 = c / total_sum (xs @ ys) * 100
              \<longleftrightarrow> v = 0))"
proof -
  let ?E = "xs @ (k, v) # ys"
  let ?D = "xs @ ys"
  let ?T = "total_sum ?D + v"
  let ?P = "\<lambda>s. case data_at ?D s of None \<Rightarrow> False | Some c \<Rightarrow> 0 < c"
  have no_seg: "k \<notin> set (map key (segmentCircles (DonutChart ?E)))"
    using keys_in_statusOrder [of ?E] assms by blast
  have tot: "total_sum ?E = ?T"
    by (rule total_sum_extra_key)
  have segs: "segments ?E (total_sum ?E) = segments ?D ?T"
    by (simp only: tot segments_extra_key [OF assms])
  have empty: "DonutChart ?E = EmptyState ''Activity'' ''No tickets assigned yet''
                 ''Tickets will appear here once assigned''
           \<and> segmentCircles (DonutChart ?E) = []"
    if "?T = 0"
    using that by (simp add: DonutChart_def tot)
  have drawn: "segmentCircles (DonutChart ?E) = renderSegments 0 (segments ?E (total_sum ?E))"
    if "?T \<noteq> 0"
    using that by (intro segmentCircles_DonutChart) (simp add: tot)
  have keys: "map key (segmentCircles (DonutChart ?E)) = filter ?P statusOrder"
    if "?T \<noteq> 0"
    by (simp only: drawn [OF that] segs key_renderSegments status_segments)
  have content: "map (\<lambda>seg. (status seg, count seg, percentage seg)) (segments ?E (total_sum ?E))
      = map (\<lambda>s. (s, case data_at ?D s of None \<Rightarrow> 0 | Some c \<Rightarrow> c,
                     case data_at ?D s of None \<Rightarrow> 0 | Some c \<Rightarrow> c / ?T * 100))
          (filter ?P statusOrder)"
    by (simp only: segs segments_content)
  have arcs: "map (\<lambda>circ. fst (strokeDasharray circ)) (segmentCircles (DonutChart ?E))
      = map (\<lambda>s. max (case data_at ?D s of None \<Rightarrow> 0 | Some c \<Rightarrow> c / ?T * 100) 0.5
                   / 100 * circumference)
          (filter ?P statusOrder)"
    if "?T \<noteq> 0"
    by (simp only: drawn [OF that] segs arcs_of_segments)
  have tot_iff: "total_sum ?E = total_sum ?D \<longleftrightarrow> v = 0"
    by (simp add: tot)
  have chart_iff: "DonutChart ?E = DonutChart ?D \<longleftrightarrow> v = 0"
    by (rule DonutChart_extra_key_iff [OF assms])
  have pct_iff: "c / ?T * 100 = c / total_sum ?D * 100 \<longleftrightarrow> v = 0"
    if "total_sum ?D \<noteq> 0" and "?T \<noteq> 0" and "0 < c"
    using that by (simp add: field_simps)
  from no_seg tot empty drawn keys content arcs tot_iff chart_iff pct_iff
  show ?thesis by blast
qed

theorem extra_key_counted_in_total_witness:
  "''ARCHIVED'' \<notin> set statusOrder
   \<and> ''ARCHIVED'' \<notin> set (map key (segmentCircles (DonutChart [(''OPEN'', 1), (''ARCHIVED'', 3)])))
   \<and> total_sum [(''OPEN'', 1), (''ARCHIVED'', 3)] = total_sum [(''OPEN'', 1)] + 3
   \<and> total_sum [(''OPEN'', 1)] + 3 \<noteq> 0
   \<and> map key (segmentCircles (DonutChart [(''OPEN'', 1), (''ARCHIVED'', 3)])) = [''OPEN'']
   \<and> map (\<lambda>seg. (status seg, count seg, percentage seg))
         (segments [(''OPEN'', 1), (''ARCHIVED'', 3)]
            (total_sum [(''OPEN'', 1), (''ARCHIVED'', 3)])) = [(''OPEN'', 1, 25)]
   \<and> map (\<lambda>circ. fst (strokeDasharray circ))
         (segmentCircles (DonutChart [(''OPEN'', 1), (''ARCHIVED'', 3)]))
       = [25 / 100 * circumference]
   \<and> DonutChart [(''OPEN'', 1), (''ARCHIVED'', 3)] \<noteq> DonutChart [(''OPEN'', 1)]
   \<and> total_sum [(''OPEN'', 1)] + - 1 = 0
   \<and> DonutChart [(''OPEN'', 1), (''ARCHIVED'', - 1)]
       = EmptyState ''Activity'' ''No tickets assigned yet''
           ''Tickets will appear here once assigned''
   \<and> segmentCircles (DonutChart [(''OPEN'', 1), (''ARCHIVED'', - 1)]) = []
   \<and> DonutChart [(''OPEN'', 1), (''ARCHIVED'', 0)] = DonutChart [(''OPEN'', 1)]"
proof -
  let ?D = "[(''OPEN'', 1)] :: counts"
  have h: "''ARCHIVED'' \<notin> set statusOrder" by (simp add: statusOrder_def)
  have t: "total_sum ?D = 1" by (simp add: total_sum_def Object_values_def)
  have nz: "total_sum ?D + 3 \<noteq> 0" and z: "total_sum ?D + - 1 = 0" by (simp_all add: t)
  have shape: "?D @ (''ARCHIVED'', v) # [] = [(''OPEN'', 1), (''ARCHIVED'', v)]"
    and shape0: "?D @ [] = ?D" for v :: real
    by simp_all
  note three = extra_key_counted_in_total [OF h, of ?D 3 "[]", unfolded shape shape0]
  note minus = extra_key_counted_in_total [OF h, of ?D "- 1" "[]", unfolded shape shape0]
  note zero = extra_key_counted_in_total [OF h, of ?D 0 "[]", unfolded shape shape0]
  from three have a: "''ARCHIVED'' \<notin> set (map key (segmentCircles
      (DonutChart [(''OPEN'', 1), (''ARCHIVED'', 3)])))"
    by blast
  from three have b: "total_sum [(''OPEN'', 1), (''ARCHIVED'', 3)] = total_sum ?D + 3"
    by blast
  from three nz have "map key (segmentCircles (DonutChart [(''OPEN'', 1), (''ARCHIVED'', 3)]))
      = filter (\<lambda>s. case data_at ?D s of None \<Rightarrow> False | Some c \<Rightarrow> 0 < c) statusOrder"
    by blast
  then have c: "map key (segmentCircles (DonutChart [(''OPEN'', 1), (''ARCHIVED'', 3)])) = [''OPEN'']"
    by (simp add: data_at_def statusOrder_def)
  from three nz have "map (\<lambda>seg. (status seg, count seg, percentage seg))
         (segments [(''OPEN'', 1), (''ARCHIVED'', 3)]
            (total_sum [(''OPEN'', 1), (''ARCHIVED'', 3)]))
      = map (\<lambda>s. (s, case data_at ?D s of None \<Rightarrow> 0 | Some c \<Rightarrow> c,
                     case data_at ?D s of None \<Rightarrow> 0 | Some c \<Rightarrow> c / (total_sum ?D + 3) * 100))
          (filter (\<lambda>s. case data_at ?D s of None \<Rightarrow> False | Some c \<Rightarrow> 0 < c) statusOrder)"
    by blast
  then have d: "map (\<lambda>seg. (status seg, count seg, percentage seg))
         (segments [(''OPEN'', 1), (''ARCHIVED'', 3)]
            (total_sum [(''OPEN'', 1), (''ARCHIVED'', 3)])) = [(''OPEN'', 1, 25)]"
    by (simp add: data_at_def statusOrder_def t)
  from three nz have "map (\<lambda>circ. fst (strokeDasharray circ))
         (segmentCircles (DonutChart [(''OPEN'', 1), (''ARCHIVED'', 3)]))
      = map (\<lambda>s. max (case data_at ?D s of None \<Rightarrow> 0
                       | Some c \<Rightarrow> c / (total_sum ?D + 3) * 100) 0.5 / 100 * circumference)
          (filter (\<lambda>s. case data_at ?D s of None \<Rightarrow> False | Some c \<Rightarrow> 0 < c) statusOrder)"
    by blast
  then have e: "map (\<lambda>circ. fst (strokeDasharray circ))
         (segmentCircles (DonutChart [(''OPEN'', 1), (''ARCHIVED'', 3)]))
       = [25 / 100 * circumference]"
    by (simp add: data_at_def statusOrder_def t)
  from three have f: "DonutChart [(''OPEN'', 1), (''ARCHIVED'', 3)] \<noteq> DonutChart ?D"
    by simp
  from minus z have g: "DonutChart [(''OPEN'', 1), (''ARCHIVED'', - 1)]
       = EmptyState ''Activity'' ''No tickets assigned yet''
           ''Tickets will appear here once assigned''
       \<and> segmentCircles (DonutChart [(''OPEN'', 1), (''ARCHIVED'', - 1)]) = []"
    by blast
  from zero have i: "DonutChart [(''OPEN'', 1), (''ARCHIVED'', 0)] = DonutChart ?D"
    by blast
  from h a b nz c d e f z g i show ?thesis by blast
qed

subsection \<open>Negative counts\<close>

text \<open>
  C7. Whatever the counts are, negative ones included, every segment circle the chart
  draws has a positive arc length, at least 0.5 percent of the circumference.
\<close>

theorem arc_lengths_positive:
  "\<forall>circ \<in> set (segmentCircles (DonutChart data)).
     0 < fst (strokeDasharray circ) \<and> 0.5 / 100 * circumference \<le> fst (strokeDasharray circ)"
proof (cases "total_sum data = 0")
  case True
  then show ?thesis by (simp add: DonutChart_def)
next
  case False
  have "0 < fst (strokeDasharray circ) \<and> 0.5 / 100 * circumference \<le> fst (strokeDasharray circ)"
    if "circ \<in> set (renderSegments a segs)" for circ a segs
    using that circumference_pos
    by (induction segs arbitrary: a) (auto simp: Let_def max_def)
  then show ?thesis by (simp add: segmentCircles_DonutChart [OF False])
qed

theorem arc_lengths_positive_witness:
  "total_sum [(''OPEN'', 1), (''PENDING'', - 5)] = - 4
   \<and> map key (segmentCircles (DonutChart [(''OPEN'', 1), (''PENDING'', - 5)])) = [''OPEN'']
   \<and> 0 < fst (strokeDasharray (hd (segmentCircles (DonutChart [(''OPEN'', 1), (''PENDING'', - 5)]))))
   \<and> 0.5 / 100 * circumference
       \<le> fst (strokeDasharray (hd (segmentCircles (DonutChart [(''OPEN'', 1), (''PENDING'', - 5)]))))"
proof -
  let ?D = "[(''OPEN'', 1), (''PENDING'', - 5)] :: counts"
  have t: "total_sum ?D = - 4"
    by (simp add: total_sum_def Object_values_def)
  have keys: "map key (segmentCircles (DonutChart ?D)) = [''OPEN'']"
    by (simp add: DonutChart_def t segments_def List.map_filter_simps data_at_def
          statusOrder_def Let_def)
  then have "segmentCircles (DonutChart ?D) \<noteq> []" by auto
  then have "hd (segmentCircles (DonutChart ?D)) \<in> set (segmentCircles (DonutChart ?D))"
    by (rule hd_in_set)
  with arc_lengths_positive [of ?D] t keys show ?thesis by blast
qed

subsection \<open>Clicks on a segment\<close>

lemma onClick_is_key:
  "circ \<in> set (renderSegments a segs) \<Longrightarrow> onClick circ = key circ"
  by (induction segs arbitrary: a) (auto simp: Let_def)

lemma onClick_of_drawn_circle:
  "circ \<in> set (segmentCircles (DonutChart data)) \<Longrightarrow> onClick circ = key circ"
  by (cases "total_sum data = 0")
    (simp_all add: DonutChart_def Let_def onClick_is_key)

text \<open>
  C8. A click on the circle drawn for a category calls \<^verbatim>\<open>navigate\<close> with the URL of the
  filtered ticket list and then, when the host passed \<^verbatim>\<open>onNavigateToTickets\<close>, calls that
  callback exactly once, with the category's label. Without the optional callback only
  \<^verbatim>\<open>navigate\<close> is called.
\<close>

theorem click_calls_callback_once:
  assumes "circ \<in> set (segmentCircles (DonutChart data))" and "key circ = s"
  shows "clickSegment True circ
         = [Navigate (''/home/ticket/show?status='' @ s), OnNavigateToTickets s]
       \<and> filter (\<lambda>e. case e of OnNavigateToTickets a \<Rightarrow> True | Navigate u \<Rightarrow> False)
           (clickSegment True circ) = [OnNavigateToTickets s]
       \<and> clickSegment False circ = [Navigate (''/home/ticket/show?status='' @ s)]"
  using onClick_of_drawn_circle [OF assms(1)] assms(2)
  by (simp add: clickSegment_def handleCardClick_def)

theorem click_calls_callback_once_witness:
  "map key (segmentCircles (DonutChart [(''OPEN'', 2), (''PENDING'', 3)])) = [''OPEN'', ''PENDING'']
   \<and> clickSegment True (segmentCircles (DonutChart [(''OPEN'', 2), (''PENDING'', 3)]) ! 1)
       = [Navigate ''/home/ticket/show?status=PENDING'', OnNavigateToTickets ''PENDING'']
   \<and> filter (\<lambda>e. case e of OnNavigateToTickets a \<Rightarrow> True | Navigate u \<Rightarrow> False)
         (clickSegment True (segmentCircles (DonutChart [(''OPEN'', 2), (''PENDING'', 3)]) ! 1))
       = [OnNavigateToTickets ''PENDING'']"
proof -
  let ?D = "[(''OPEN'', 2), (''PENDING'', 3)] :: counts"
  let ?cs = "segmentCircles (DonutChart ?D)"
  have keys: "map key ?cs = [''OPEN'', ''PENDING'']"
    by (simp add: DonutChart_def total_sum_def Object_values_def segments_def
          List.map_filter_simps data_at_def statusOrder_def Let_def)
  have "length (map key ?cs) = 2" by (simp only: keys) simp
  then have len: "length ?cs = 2" by simp
  then have mem: "?cs ! 1 \<in> set ?cs" by simp
  have "map key ?cs ! 1 = ''PENDING''" by (simp only: keys) simp
  then have k: "key (?cs ! 1) = ''PENDING''" using len by simp
  from click_calls_callback_once [OF mem k] keys show ?thesis by simp
qed

subsection \<open>The two charts\<close>

lemma constants_part001:
  "colors_part001 = colors" "statusOrder_part001 = statusOrder"
  "size_part001 = size_px" "strokeWidth_part001 = strokeWidth_px"
  "radius_part001 = radius" "circumference_part001 = circumference"
  by (simp_all add: colors_part001_def colors_def statusOrder_part001_def statusOrder_def
        size_part001_def size_px_def strokeWidth_part001_def strokeWidth_px_def
        radius_part001_def radius_def circumference_part001_def circumference_def)

lemma segments_part001_eq: "segments_part001 data t = segments data t"
  unfolding segments_part001_def segments_def constants_part001 by (rule refl)

lemma renderSegments_part001_eq:
  "renderSegments_part001 a segs
   = map (\<lambda>circ. circ\<lparr>onMouseMove := None\<rparr>) (renderSegments a segs)"
  by (induction segs arbitrary: a) (simp_all add: Let_def constants_part001)

text \<open>
  C10. The chart of the second dashboard file returns, for every input, the view of the
  chart of \<^verbatim>\<open>DashboardHome.tsx\<close> with the pointer handlers removed: the same branch, the
  same segment list, and circles with the same key, dash array, dash offset, colour and click
  argument.
\<close>

theorem donut_charts_agree:
  "DonutChart_part001 data = withoutHover (DonutChart data)
   \<and> segments_part001 data t = segments data t
   \<and> map (\<lambda>circ. (key circ, strokeDasharray circ, strokeDashoffset circ, stroke circ, onClick circ))
         (segmentCircles (DonutChart_part001 data))
       = map (\<lambda>circ. (key circ, strokeDasharray circ, strokeDashoffset circ, stroke circ, onClick circ))
           (segmentCircles (DonutChart data))"
proof -
  have a: "DonutChart_part001 data = withoutHover (DonutChart data)"
    by (simp add: DonutChart_part001_def DonutChart_def total_sum_def Let_def
          segments_part001_eq renderSegments_part001_eq constants_part001)
  have b: "map (\<lambda>circ. (key circ, strokeDasharray circ, strokeDashoffset circ, stroke circ, onClick circ))
         (segmentCircles (withoutHover v))
       = map (\<lambda>circ. (key circ, strokeDasharray circ, strokeDashoffset circ, stroke circ, onClick circ))
           (segmentCircles v)" for v
    by (cases v) (simp_all add: comp_def)
  from a b segments_part001_eq show ?thesis by simp
qed

section \<open>Properties of the company list page\<close>

text \<open>
  C9. \<open>isSuperAdmin\<close> holds exactly when user data is present with department 1. The
  header has the Actions column, and a row its edit and delete buttons, exactly for a
  super admin; the page shows that table once it is not loading. For anyone else,
  \<^verbatim>\<open>handleEditClick\<close> and \<^verbatim>\<open>handleDeleteClick\<close> only add the error toast, and so do
  \<^verbatim>\<open>handleUpdate\<close> and \<^verbatim>\<open>handleDelete\<close> while a company is selected (their buttons exist
  only then); none of the four changes the company list.
\<close>

theorem company_actions_gated_on_department:
  "(isSuperAdmin st \<longleftrightarrow> (\<exists>u. userData st = Some u \<and> departmentId u = 1))
   \<and> (''Actions'' \<in> set (tableHeader st) \<longleftrightarrow> isSuperAdmin st)
   \<and> (rowActions st c = (if isSuperAdmin st then [Edit_button c, Delete_button c] else []))
   \<and> (\<not> loading st \<longrightarrow>
         ShowCompanyPage st shown
         = Company_page (tableHeader st) (map (\<lambda>c. (c, rowActions st c)) shown)
             (if editModal st then selectedCompany st else None)
             (if deleteModal st then selectedCompany st else None))
   \<and> (\<not> isSuperAdmin st \<longrightarrow>
         handleEditClick st c
         = st\<lparr>toasts := toasts st @ [Toast_error
              ''You don't have permission to edit companies. Only SuperAdmin can edit.'']\<rparr>
       \<and> handleDeleteClick st c
         = st\<lparr>toasts := toasts st @ [Toast_error
              ''You don't have permission to delete companies. Only SuperAdmin can delete.'']\<rparr>
       \<and> (selectedCompany st \<noteq> None \<longrightarrow>
             handleUpdate st put_res get_res
             = st\<lparr>toasts := toasts st @ [Toast_error
                  ''You don't have permission to edit companies. Only SuperAdmin can edit.'']\<rparr>
           \<and> handleDelete st del_res
             = st\<lparr>toasts := toasts st @ [Toast_error
                  ''You don't have permission to delete companies. Only SuperAdmin can delete.'']\<rparr>)
       \<and> companies (handleEditClick st c) = companies st
       \<and> companies (handleDeleteClick st c) = companies st
       \<and> companies (handleUpdate st put_res get_res) = companies st
       \<and> companies (handleDelete st del_res) = companies st)"
proof -
  have admin: "isSuperAdmin st \<longleftrightarrow> (\<exists>u. userData st = Some u \<and> departmentId u = 1)"
    by (simp add: isSuperAdmin_def split: option.splits)
  have header: "''Actions'' \<in> set (tableHeader st) \<longleftrightarrow> isSuperAdmin st"
    by (simp add: tableHeader_def)
  have row: "rowActions st c = (if isSuperAdmin st then [Edit_button c, Delete_button c] else [])"
    by (simp add: rowActions_def)
  have page: "ShowCompanyPage st shown
         = Company_page (tableHeader st) (map (\<lambda>c. (c, rowActions st c)) shown)
             (if editModal st then selectedCompany st else None)
             (if deleteModal st then selectedCompany st else None)"
    if "\<not> loading st"
    using that by (simp add: ShowCompanyPage_def)
  have clicks: "handleEditClick st c
         = st\<lparr>toasts := toasts st @ [Toast_error
              ''You don't have permission to edit companies. Only SuperAdmin can edit.'']\<rparr>
       \<and> handleDeleteClick st c
         = st\<lparr>toasts := toasts st @ [Toast_error
              ''You don't have permission to delete companies. Only SuperAdmin can delete.'']\<rparr>"
    if "\<not> isSuperAdmin st"
    using that by (simp add: handleEditClick_def handleDeleteClick_def toast_error_def)
  have submits: "handleUpdate st put_res get_res
             = st\<lparr>toasts := toasts st @ [Toast_error
                  ''You don't have permission to edit companies. Only SuperAdmin can edit.'']\<rparr>
           \<and> handleDelete st del_res
             = st\<lparr>toasts := toasts st @ [Toast_error
                  ''You don't have permission to delete companies. Only SuperAdmin can delete.'']\<rparr>"
    if "\<not> isSuperAdmin st" and "selectedCompany st \<noteq> None"
    using that by (auto simp: handleUpdate_def handleDelete_def toast_error_def)
  have unchanged: "companies (handleEditClick st c) = companies st
       \<and> companies (handleDeleteClick st c) = companies st
       \<and> companies (handleUpdate st put_res get_res) = companies st
       \<and> companies (handleDelete st del_res) = companies st"
    if "\<not> isSuperAdmin st"
    using that
    by (simp add: handleEditClick_def handleDeleteClick_def handleUpdate_def handleDelete_def
          toast_error_def split: option.splits)
  from admin header row page clicks submits unchanged show ?thesis by blast
qed

theorem company_actions_gated_on_department_witness:
  "let acme = \<lparr>company_id = 7, name = ''Acme'', email = ''info@acme.test'', phone = ''555'',
                address = ''1 Main St'', logo = ''''\<rparr>;
       viewer = \<lparr>companies = [acme], loading = False, search = '''',
                  selectedCompany = Some acme, editModal = True, deleteModal = False,
                  userData = Some \<lparr>user_id = Some 3, departmentId = 2, departmentName = None,
                                    user_name = ''Asha'', user_email = None\<rparr>,
                  toasts = []\<rparr>;
       admin = viewer\<lparr>userData := Some \<lparr>user_id = Some 1, departmentId = 1,
                                          departmentName = None, user_name = ''Root'',
                                          user_email = None\<rparr>\<rparr>
   in \<not> isSuperAdmin viewer
      \<and> \<not> loading viewer
      \<and> selectedCompany viewer \<noteq> None
      \<and> ''Actions'' \<notin> set (tableHeader viewer)
      \<and> rowActions viewer acme = []
      \<and> ShowCompanyPage viewer [acme]
          = Company_page (tableHeader viewer) [(acme, [])] (Some acme) None
      \<and> handleEditClick viewer acme
          = viewer\<lparr>toasts := [Toast_error
               ''You don't have permission to edit companies. Only SuperAdmin can edit.'']\<rparr>
      \<and> handleDeleteClick viewer acme
          = viewer\<lparr>toasts := [Toast_error
               ''You don't have permission to delete companies. Only SuperAdmin can delete.'']\<rparr>
      \<and> handleUpdate viewer (Resolved 1 None None) (Resolved 1 (Some []) None)
          = viewer\<lparr>toasts := [Toast_error
               ''You don't have permission to edit companies. Only SuperAdmin can edit.'']\<rparr>
      \<and> handleDelete viewer (Resolved 1 None None)
          = viewer\<lparr>toasts := [Toast_error
               ''You don't have permission to delete companies. Only SuperAdmin can delete.'']\<rparr>
      \<and> companies (handleDelete viewer (Resolved 1 None None)) = [acme]
      \<and> isSuperAdmin admin
      \<and> ''Actions'' \<in> set (tableHeader admin)
      \<and> rowActions admin acme = [Edit_button acme, Delete_button acme]"
proof -
  let ?acme = "\<lparr>company_id = 7, name = ''Acme'', email = ''info@acme.test'', phone = ''555'',
                address = ''1 Main St'', logo = ''''\<rparr>"
  let ?viewer = "\<lparr>companies = [?acme], loading = False, search = '''',
                  selectedCompany = Some ?acme, editModal = True, deleteModal = False,
                  userData = Some \<lparr>user_id = Some 3, departmentId = 2, departmentName = None,
                                    user_name = ''Asha'', user_email = None\<rparr>,
                  toasts = []\<rparr>"
  let ?admin = "?viewer\<lparr>userData := Some \<lparr>user_id = Some 1, departmentId = 1,
                                          departmentName = None, user_name = ''Root'',
                                          user_email = None\<rparr>\<rparr>"
  let ?edit = "''You don't have permission to edit companies. Only SuperAdmin can edit.''"
  let ?delete = "''You don't have permission to delete companies. Only SuperAdmin can delete.''"
  have v: "\<not> isSuperAdmin ?viewer" "\<not> loading ?viewer" "selectedCompany ?viewer \<noteq> None"
    by (simp_all add: isSuperAdmin_def)
  have a: "isSuperAdmin ?admin"
    by (simp add: isSuperAdmin_def)
  note viewer = company_actions_gated_on_department
    [of ?viewer ?acme "[?acme]" "Resolved 1 None None" "Resolved 1 (Some []) None"
       "Resolved 1 None None"]
  note admin = company_actions_gated_on_department
    [of ?admin ?acme "[?acme]" "Resolved 1 None None" "Resolved 1 (Some []) None"
       "Resolved 1 None None"]
  from viewer v have "''Actions'' \<notin> set (tableHeader ?viewer)" by blast
  moreover from viewer v have "rowActions ?viewer ?acme = []" by simp
  moreover from viewer v have "ShowCompanyPage ?viewer [?acme]
      = Company_page (tableHeader ?viewer) [(?acme, [])] (Some ?acme) None" by simp
  moreover from viewer v have "handleEditClick ?viewer ?acme = ?viewer\<lparr>toasts := [Toast_error ?edit]\<rparr>"
    by simp
  moreover from viewer v have "handleDeleteClick ?viewer ?acme = ?viewer\<lparr>toasts := [Toast_error ?delete]\<rparr>"
    by simp
  moreover from viewer v
  have "handleUpdate ?viewer (Resolved 1 None None) (Resolved 1 (Some []) None)
      = ?viewer\<lparr>toasts := [Toast_error ?edit]\<rparr>"
    by simp
  moreover from viewer v
  have "handleDelete ?viewer (Resolved 1 None None) = ?viewer\<lparr>toasts := [Toast_error ?delete]\<rparr>"
    by simp
  moreover from viewer v
  have "companies (handleDelete ?viewer (Resolved 1 None None)) = [?acme]"
    by simp
  moreover from admin a have "''Actions'' \<in> set (tableHeader ?admin)" by blast
  moreover from admin a have "rowActions ?admin ?acme = [Edit_button ?acme, Delete_button ?acme]"
    by simp
  ultimately show ?thesis unfolding Let_def using v a by blast
qed

end
